theory Spec2Isabelle
  imports Main
begin

section \<open>The option model of package mq (src/mq/options.go)\<close>

text \<open>
  The file declares three settings records (\<open>Options\<close>, \<open>PublishOptions\<close>,
  \<open>SubscribeOptions\<close>), the configurator closures that assign their fields, the
  \<open>Strategy\<close> interface with its implementation \<open>strategyImpl\<close>, and the constructor
  \<open>NewSubscribeOptions\<close>.

  Conventions of the embedding.
  \<^item> A Go value that may be \<open>nil\<close> (an interface value, a pointer) is an \<open>option\<close>:
    \<open>None\<close> is \<open>nil\<close>.
  \<^item> A closure over \<open>*Options\<close> is a function from the record to the updated record. The
    only call in the file that can panic is \<open>context.WithValue\<close> inside
    \<open>ContextWithValue\<close>, so a connection configurator returns \<open>panic + Options\<close>
    (\<open>Inl\<close> is the panic). No subscribe configurator calls anything, so a
    \<open>SubscribeOption\<close> is a total function.
  \<^item> A field is written with its record's name, as Go does (\<open>Options.Secure opt\<close> is
    \<open>opt.Secure\<close>); the bare name (\<open>Secure\<close>) is the configurator function.
  \<^item> Go's \<open>int\<close> and \<open>uint\<close> are \<open>int\<close> and \<open>nat\<close>: the file stores such numbers and
    never computes with them, so no wrap-around can occur. A \<open>nil\<close> slice and an empty
    slice are both the empty list.
  \<^item> The implementations of \<open>Codecer\<close>, \<open>Handler\<close>, \<open>Logger\<close> and the pointee of
    \<open>*tls.Config\<close> are outside the file; the record is parametric in their types.
\<close>

subsection \<open>Strategies (lines 10-30)\<close>

definition StrategyKindRetry :: string where
  "StrategyKindRetry = ''retry''"

definition StrategyKindDoOnce :: string where
  "StrategyKindDoOnce = ''do_once''"

definition StrategyKindSendBack :: string where
  "StrategyKindSendBack = ''send_back''"

text \<open>
  A non-nil value of the interface type \<open>Strategy\<close> (the datatype is named
  \<open>Strategy_value\<close>, the name \<open>Strategy\<close> being the method's): either the package's own
  \<open>strategyImpl\<close> (a string), or a value of a type declared by a caller, which the
  interface allows; such a value is represented by the string its \<open>Strategy()\<close> method
  reports.
\<close>

datatype Strategy_value = strategyImpl string | customStrategy string

definition StrategyRetry :: Strategy_value where
  "StrategyRetry = strategyImpl StrategyKindRetry"

definition StrategyDoOnce :: Strategy_value where
  "StrategyDoOnce = strategyImpl StrategyKindDoOnce"

definition StrategySendBack :: Strategy_value where
  "StrategySendBack = strategyImpl StrategyKindSendBack"

subsection \<open>The context package of the Go standard library, as far as the file uses it\<close>

text \<open>
  A value of the empty interface (keys and values of a context): \<open>nil\<close>, a value whose
  dynamic type is comparable, or a value whose dynamic type is not comparable (a slice, a
  map, a function). A struct or interface type counts as comparable here, as it does for
  \<open>reflect\<close>, also when a value of it holds something that is not.
\<close>

datatype 'v any = NilValue | Comparable 'v | NotComparable 'v

text \<open>
  A non-nil \<open>context.Context\<close>, by the values it carries: the empty context that
  \<open>context.Background()\<close> returns, or a \<open>valueCtx\<close> holding its parent, a key and a
  value. Only \<open>WithValue\<close> makes a \<open>valueCtx\<close>, so its key is a non-nil value of a
  comparable type. (The standard library's other contexts add cancellation and
  deadlines, and hand \<open>Value\<close> on to their parent.)
\<close>

datatype 'v ctx = backgroundCtx | valueCtx "'v ctx" 'v "'v any"

datatype panic = NilParent | NilKey | KeyNotComparable | ComparingUncomparable

definition Background :: "'v ctx" where
  "Background = backgroundCtx"

text \<open>
  \<open>context.WithValue(parent, key, val)\<close> panics on a nil parent ("cannot create context
  from nil parent"), on a nil key ("nil key") and on a key whose type is not comparable
  ("key is not comparable"), in this order; otherwise it returns
  \<open>&valueCtx{parent, key, val}\<close>.
\<close>

fun WithValue :: "'v ctx option \<Rightarrow> 'v any \<Rightarrow> 'v any \<Rightarrow> panic + 'v ctx" where
  "WithValue None key val = Inl NilParent"
| "WithValue (Some parent) NilValue val = Inl NilKey"
| "WithValue (Some parent) (NotComparable k) val = Inl KeyNotComparable"
| "WithValue (Some parent) (Comparable k) val = Inr (valueCtx parent k val)"

text \<open>
  Go's \<open>==\<close> is not HOL's equality. On two values of comparable dynamic types it is
  false when the types differ and the type's own comparison otherwise, which need not be
  reflexive (a NaN differs from itself) and can panic at run time (a struct with an
  interface field that holds a slice). It is a parameter \<open>eq\<close> of the lookup: \<open>eq a b\<close>
  is \<open>Some\<close> of the outcome, or \<open>None\<close> for the panic. \<open>key_eq\<close> is \<open>c.key == key\<close> for
  the key \<open>c.key\<close> of a \<open>valueCtx\<close>: a nil \<open>key\<close>, or one of a type that is not
  comparable, has another dynamic type than \<open>c.key\<close>, so the outcome is false.
\<close>

fun key_eq :: "('v \<Rightarrow> 'v \<Rightarrow> bool option) \<Rightarrow> 'v \<Rightarrow> 'v any \<Rightarrow> bool option" where
  "key_eq eq k NilValue = Some False"
| "key_eq eq k (NotComparable q) = Some False"
| "key_eq eq k (Comparable q) = eq k q"

text \<open>
  \<open>c.Value(key)\<close>: a \<open>valueCtx\<close> answers for a key equal to its own
  (\<open>if c.key == key { return c.val }\<close>) and asks its parent for any other; the empty
  context answers \<open>nil\<close>.
\<close>

fun Value :: "('v \<Rightarrow> 'v \<Rightarrow> bool option) \<Rightarrow> 'v ctx \<Rightarrow> 'v any \<Rightarrow> panic + 'v any" where
  "Value eq backgroundCtx key = Inr NilValue"
| "Value eq (valueCtx parent k val) key =
     (case key_eq eq k key of
        None \<Rightarrow> Inl ComparingUncomparable
      | Some True \<Rightarrow> Inr val
      | Some False \<Rightarrow> Value eq parent key)"

text \<open>
  The comparison of keys that are equal exactly when they are the same value (integers,
  strings, pointers): the instance used in the examples.
\<close>

definition plain_eq :: "'v \<Rightarrow> 'v \<Rightarrow> bool option" where
  "plain_eq a b = Some (a = b)"

subsection \<open>The records (lines 40-61, 146-150, 161-180)\<close>

text \<open>
  \<open>sarama.KafkaVersion\<close> is a struct around \<open>version [4]uint\<close>; the file only stores it.
\<close>

datatype KafkaVersion = KafkaVersion nat nat nat nat

record ('codec, 'handler, 'tls, 'v, 'logger) Options =
  Addresses :: "string list"
  Version :: KafkaVersion
  Secure :: bool
  Codec :: "'codec option"
  Username :: string
  Password :: string
  Algorithm :: string
  ErrorHandler :: "'handler option"
  TLSConfig :: "'tls option"
  Context :: "'v ctx option"
  Log :: "'logger option"
  Otel :: bool

record 'v PublishOptions =
  Context :: "'v ctx option"

record 'v SubscribeOptions =
  AutoAck :: bool
  Queue :: string
  RetryNum :: int
  Strategy :: "Strategy_value option"
  Context :: "'v ctx option"

type_synonym ('codec, 'handler, 'tls, 'v, 'logger) Option =
  "('codec, 'handler, 'tls, 'v, 'logger) Options \<Rightarrow>
     panic + ('codec, 'handler, 'tls, 'v, 'logger) Options"

type_synonym 'v PublishOption = "'v PublishOptions \<Rightarrow> 'v PublishOptions"

type_synonym 'v SubscribeOption = "'v SubscribeOptions \<Rightarrow> 'v SubscribeOptions"

text \<open>The method \<open>Strategy()\<close> of the interface (lines 28-30 for \<open>strategyImpl\<close>).\<close>

fun Strategy :: "Strategy_value \<Rightarrow> string" where
  "Strategy (strategyImpl impl) = impl"
| "Strategy (customStrategy reported) = reported"

text \<open>The zero value \<open>Options{}\<close>: a default-initialized record.\<close>

definition Options_zero :: "('codec, 'handler, 'tls, 'v, 'logger) Options" where
  "Options_zero =
     \<lparr>Options.Addresses = [], Options.Version = KafkaVersion 0 0 0 0,
      Options.Secure = False, Options.Codec = None, Options.Username = [],
      Options.Password = [], Options.Algorithm = [], Options.ErrorHandler = None,
      Options.TLSConfig = None, Options.Context = None, Options.Log = None,
      Options.Otel = False\<rparr>"

subsection \<open>Connection configurators (lines 63-144)\<close>

definition Addresses :: "string list \<Rightarrow> ('codec, 'handler, 'tls, 'v, 'logger) Option" where
  "Addresses addrs = (\<lambda>opt. Inr (opt\<lparr>Options.Addresses := addrs\<rparr>))"

definition Sasl :: "string \<Rightarrow> string \<Rightarrow> string \<Rightarrow> ('codec, 'handler, 'tls, 'v, 'logger) Option" where
  "Sasl user pass algorithm =
     (\<lambda>opt. Inr (opt\<lparr>Options.Username := user, Options.Password := pass,
                      Options.Algorithm := algorithm\<rparr>))"

definition Version :: "KafkaVersion \<Rightarrow> ('codec, 'handler, 'tls, 'v, 'logger) Option" where
  "Version version = (\<lambda>opt. Inr (opt\<lparr>Options.Version := version\<rparr>))"

definition Secure :: "bool \<Rightarrow> ('codec, 'handler, 'tls, 'v, 'logger) Option" where
  "Secure b = (\<lambda>opt. Inr (opt\<lparr>Options.Secure := b\<rparr>))"

definition Codec :: "'codec option \<Rightarrow> ('codec, 'handler, 'tls, 'v, 'logger) Option" where
  "Codec c = (\<lambda>opt. Inr (opt\<lparr>Options.Codec := c\<rparr>))"

definition ErrorHandler :: "'handler option \<Rightarrow> ('codec, 'handler, 'tls, 'v, 'logger) Option" where
  "ErrorHandler h = (\<lambda>opt. Inr (opt\<lparr>Options.ErrorHandler := h\<rparr>))"

definition SetTLSConfig :: "'tls option \<Rightarrow> ('codec, 'handler, 'tls, 'v, 'logger) Option" where
  "SetTLSConfig t = (\<lambda>opt. Inr (opt\<lparr>Options.TLSConfig := t\<rparr>))"

definition Context :: "'v ctx option \<Rightarrow> ('codec, 'handler, 'tls, 'v, 'logger) Option" where
  "Context c = (\<lambda>opt. Inr (opt\<lparr>Options.Context := c\<rparr>))"

definition ContextWithValue :: "'v any \<Rightarrow> 'v any \<Rightarrow> ('codec, 'handler, 'tls, 'v, 'logger) Option" where
  "ContextWithValue k v =
     (\<lambda>opt.
        let opt1 = (if Options.Context opt = None
                    then opt\<lparr>Options.Context := Some Background\<rparr> else opt)
        in case WithValue (Options.Context opt1) k v of
             Inl p \<Rightarrow> Inl p
           | Inr c \<Rightarrow> Inr (opt1\<lparr>Options.Context := Some c\<rparr>))"

definition Log :: "'logger option \<Rightarrow> ('codec, 'handler, 'tls, 'v, 'logger) Option" where
  "Log log = (\<lambda>opt. if log \<noteq> None then Inr (opt\<lparr>Options.Log := log\<rparr>) else Inr opt)"

definition Otel :: "bool \<Rightarrow> ('codec, 'handler, 'tls, 'v, 'logger) Option" where
  "Otel b = (\<lambda>opt. Inr (opt\<lparr>Options.Otel := b\<rparr>))"

subsection \<open>Publish and subscribe configurators (lines 152-230)\<close>

definition PublishContext :: "'v ctx option \<Rightarrow> 'v PublishOption" where
  "PublishContext ctx = (\<lambda>opt. opt\<lparr>PublishOptions.Context := ctx\<rparr>)"

text \<open>
  \<open>NewSubscribeOptions\<close>: the record starts as \<open>SubscribeOptions{AutoAck: true}\<close> (every
  other field at its zero value) and the loop calls each configurator on it, first to
  last.
\<close>

definition NewSubscribeOptions :: "'v SubscribeOption list \<Rightarrow> 'v SubscribeOptions" where
  "NewSubscribeOptions opts =
     fold (\<lambda>configure opt. configure opt) opts
       \<lparr>SubscribeOptions.AutoAck = True, SubscribeOptions.Queue = [],
        SubscribeOptions.RetryNum = 0, SubscribeOptions.Strategy = None,
        SubscribeOptions.Context = None\<rparr>"

definition DisableAutoAck :: "'v SubscribeOption" where
  "DisableAutoAck = (\<lambda>opt. opt\<lparr>SubscribeOptions.AutoAck := False\<rparr>)"

definition Queue :: "string \<Rightarrow> 'v SubscribeOption" where
  "Queue name = (\<lambda>opt. opt\<lparr>SubscribeOptions.Queue := name\<rparr>)"

definition SubscribeContext :: "'v ctx option \<Rightarrow> 'v SubscribeOption" where
  "SubscribeContext ctx = (\<lambda>opt. opt\<lparr>SubscribeOptions.Context := ctx\<rparr>)"

definition SubscribeRetryNum :: "int \<Rightarrow> 'v SubscribeOption" where
  "SubscribeRetryNum v = (\<lambda>opt. opt\<lparr>SubscribeOptions.RetryNum := v\<rparr>)"

definition SubscribeStrategy :: "Strategy_value option \<Rightarrow> 'v SubscribeOption" where
  "SubscribeStrategy v = (\<lambda>opt. opt\<lparr>SubscribeOptions.Strategy := v\<rparr>)"

section \<open>Sequences of configurators\<close>

subsection \<open>The closures the package's constructors return\<close>

text \<open>
  A value of type \<open>Option\<close> made by the package is one of eleven function literals
  together with the arguments it captured. \<open>Option_call\<close> names them, one constructor
  per constructor function of the file, and \<open>Option_of\<close> gives the closure. Properties of
  "every sequence of connection configurators" quantify over lists of such calls.
\<close>

datatype ('codec, 'handler, 'tls, 'v, 'logger) Option_call =
    Call_Addresses "string list"
  | Call_Sasl string string string
  | Call_Version KafkaVersion
  | Call_Secure bool
  | Call_Codec "'codec option"
  | Call_ErrorHandler "'handler option"
  | Call_SetTLSConfig "'tls option"
  | Call_Context "'v ctx option"
  | Call_ContextWithValue "'v any" "'v any"
  | Call_Log "'logger option"
  | Call_Otel bool

fun Option_of ::
  "('codec, 'handler, 'tls, 'v, 'logger) Option_call \<Rightarrow> ('codec, 'handler, 'tls, 'v, 'logger) Option"
where
  "Option_of (Call_Addresses addrs) = Addresses addrs"
| "Option_of (Call_Sasl user pass algorithm) = Sasl user pass algorithm"
| "Option_of (Call_Version version) = Version version"
| "Option_of (Call_Secure b) = Secure b"
| "Option_of (Call_Codec c) = Codec c"
| "Option_of (Call_ErrorHandler h) = ErrorHandler h"
| "Option_of (Call_SetTLSConfig t) = SetTLSConfig t"
| "Option_of (Call_Context c) = Context c"
| "Option_of (Call_ContextWithValue k v) = ContextWithValue k v"
| "Option_of (Call_Log log) = Log log"
| "Option_of (Call_Otel b) = Otel b"

text \<open>
  Configurators "applied in order": the calls \<open>o(&opt)\<close> made one after the other on the
  same record, first to last, as the loop of lines 189-191
  (\<open>for _, o := range opts { o(&opt) }\<close>) makes them for subscribe configurators. The file
  has no function that does this for \<open>Options\<close>; the definition is the statement sequence
  itself, and a panic of one call ends it, as Go propagates a panic.
\<close>

fun apply_in_order ::
  "('codec, 'handler, 'tls, 'v, 'logger) Option list \<Rightarrow> ('codec, 'handler, 'tls, 'v, 'logger) Option"
where
  "apply_in_order [] opt = Inr opt"
| "apply_in_order (configure # opts) opt =
     (case configure opt of Inl p \<Rightarrow> Inl p | Inr opt' \<Rightarrow> apply_in_order opts opt')"

subsection \<open>The last-write-wins result of a sequence, in the words of the spec\<close>

text \<open>
  The panic of a call, if its closure panics (on every record: the key decides), and the
  first panic of a sequence of calls.
\<close>

fun panic_of :: "('codec, 'handler, 'tls, 'v, 'logger) Option_call \<Rightarrow> panic option" where
  "panic_of (Call_ContextWithValue NilValue v) = Some NilKey"
| "panic_of (Call_ContextWithValue (NotComparable k) v) = Some KeyNotComparable"
| "panic_of c = None"

fun first_panic :: "('codec, 'handler, 'tls, 'v, 'logger) Option_call list \<Rightarrow> panic option" where
  "first_panic [] = None"
| "first_panic (c # cs) = (case panic_of c of Some p \<Rightarrow> Some p | None \<Rightarrow> first_panic cs)"

text \<open>
  The \<open>Context\<close> field is the one field that is not simply the last value written. Its
  result: the argument of the last \<open>Context(c)\<close> of the sequence (the context the record
  held, when there is none), extended by the bindings of the \<open>ContextWithValue\<close> calls
  that come after it, in order, starting from the empty base context where that context
  is nil.
\<close>

fun sets_Context :: "('codec, 'handler, 'tls, 'v, 'logger) Option_call \<Rightarrow> bool" where
  "sets_Context (Call_Context c) = True"
| "sets_Context c = False"

definition after_last_Context ::
  "('codec, 'handler, 'tls, 'v, 'logger) Option_call list \<Rightarrow>
     ('codec, 'handler, 'tls, 'v, 'logger) Option_call list"
where
  "after_last_Context cs = rev (takeWhile (\<lambda>c. \<not> sets_Context c) (rev cs))"

definition Context_written ::
  "('codec, 'handler, 'tls, 'v, 'logger) Option_call list \<Rightarrow> 'v ctx option \<Rightarrow> 'v ctx option"
where
  "Context_written cs held =
     (let base = last (held # [c. Call_Context c \<leftarrow> cs]);
          added = [(k, v). Call_ContextWithValue (Comparable k) v \<leftarrow> after_last_Context cs]
      in if added = [] then base
         else Some (foldl (\<lambda>parent (k, v). valueCtx parent k v)
                      (case base of None \<Rightarrow> Background | Some c \<Rightarrow> c) added))"

text \<open>
  The last-write-wins result of a sequence of calls on a record: every field but
  \<open>Context\<close> holds the argument of the last call that assigns it, and what the record
  held when no call does. \<open>Sasl\<close> writes three fields; \<open>Log\<close> writes only a non-nil
  logger.
\<close>

definition last_write_wins ::
  "('codec, 'handler, 'tls, 'v, 'logger) Option_call list \<Rightarrow>
     ('codec, 'handler, 'tls, 'v, 'logger) Options \<Rightarrow> ('codec, 'handler, 'tls, 'v, 'logger) Options"
where
  "last_write_wins cs opt =
     \<lparr>Options.Addresses = last (Options.Addresses opt # [addrs. Call_Addresses addrs \<leftarrow> cs]),
      Options.Version = last (Options.Version opt # [version. Call_Version version \<leftarrow> cs]),
      Options.Secure = last (Options.Secure opt # [b. Call_Secure b \<leftarrow> cs]),
      Options.Codec = last (Options.Codec opt # [c. Call_Codec c \<leftarrow> cs]),
      Options.Username =
        last (Options.Username opt # [user. Call_Sasl user pass algorithm \<leftarrow> cs]),
      Options.Password =
        last (Options.Password opt # [pass. Call_Sasl user pass algorithm \<leftarrow> cs]),
      Options.Algorithm =
        last (Options.Algorithm opt # [algorithm. Call_Sasl user pass algorithm \<leftarrow> cs]),
      Options.ErrorHandler = last (Options.ErrorHandler opt # [h. Call_ErrorHandler h \<leftarrow> cs]),
      Options.TLSConfig = last (Options.TLSConfig opt # [t. Call_SetTLSConfig t \<leftarrow> cs]),
      Options.Context = Context_written cs (Options.Context opt),
      Options.Log = last (Options.Log opt # [Some log. Call_Log (Some log) \<leftarrow> cs]),
      Options.Otel = last (Options.Otel opt # [b. Call_Otel b \<leftarrow> cs])\<rparr>"

subsection \<open>The fields a closure assigns\<close>

text \<open>
  The fields of \<open>Options\<close>, and for each closure the fields its body assigns when it
  runs (lines 66-144). \<open>Log\<close> with a nil logger skips its only assignment (lines 134-136).
\<close>

datatype field =
    Addresses_field | Version_field | Secure_field | Codec_field | Username_field
  | Password_field | Algorithm_field | ErrorHandler_field | TLSConfig_field
  | Context_field | Log_field | Otel_field

fun assigns :: "('codec, 'handler, 'tls, 'v, 'logger) Option_call \<Rightarrow> field set" where
  "assigns (Call_Addresses addrs) = {Addresses_field}"
| "assigns (Call_Sasl user pass algorithm) = {Username_field, Password_field, Algorithm_field}"
| "assigns (Call_Version version) = {Version_field}"
| "assigns (Call_Secure b) = {Secure_field}"
| "assigns (Call_Codec c) = {Codec_field}"
| "assigns (Call_ErrorHandler h) = {ErrorHandler_field}"
| "assigns (Call_SetTLSConfig t) = {TLSConfig_field}"
| "assigns (Call_Context c) = {Context_field}"
| "assigns (Call_ContextWithValue k v) = {Context_field}"
| "assigns (Call_Log log) = (if log = None then {} else {Log_field})"
| "assigns (Call_Otel b) = {Otel_field}"

text \<open>
  \<open>ContextWithValue\<close> is the one closure whose assignment depends on what the field
  held: it wraps the context it finds. Every other closure stores its captured arguments.
\<close>

fun extends_context :: "('codec, 'handler, 'tls, 'v, 'logger) Option_call \<Rightarrow> bool" where
  "extends_context (Call_ContextWithValue k v) = True"
| "extends_context c = False"

text \<open>A call that hands the record a logger: \<open>Log\<close> with a non-nil argument.\<close>

fun supplies_logger :: "('codec, 'handler, 'tls, 'v, 'logger) Option_call \<Rightarrow> bool" where
  "supplies_logger (Call_Log log) = (log \<noteq> None)"
| "supplies_logger c = False"

text \<open>Two records hold the same value in a field; they agree on every field outside a set.\<close>

fun same_field ::
  "field \<Rightarrow> ('codec, 'handler, 'tls, 'v, 'logger) Options \<Rightarrow>
     ('codec, 'handler, 'tls, 'v, 'logger) Options \<Rightarrow> bool"
where
  "same_field Addresses_field a b = (Options.Addresses a = Options.Addresses b)"
| "same_field Version_field a b = (Options.Version a = Options.Version b)"
| "same_field Secure_field a b = (Options.Secure a = Options.Secure b)"
| "same_field Codec_field a b = (Options.Codec a = Options.Codec b)"
| "same_field Username_field a b = (Options.Username a = Options.Username b)"
| "same_field Password_field a b = (Options.Password a = Options.Password b)"
| "same_field Algorithm_field a b = (Options.Algorithm a = Options.Algorithm b)"
| "same_field ErrorHandler_field a b = (Options.ErrorHandler a = Options.ErrorHandler b)"
| "same_field TLSConfig_field a b = (Options.TLSConfig a = Options.TLSConfig b)"
| "same_field Context_field a b = (Options.Context a = Options.Context b)"
| "same_field Log_field a b = (Options.Log a = Options.Log b)"
| "same_field Otel_field a b = (Options.Otel a = Options.Otel b)"

definition agree_off ::
  "field set \<Rightarrow> ('codec, 'handler, 'tls, 'v, 'logger) Options \<Rightarrow>
     ('codec, 'handler, 'tls, 'v, 'logger) Options \<Rightarrow> bool"
where
  "agree_off F a b = (\<forall>f. f \<notin> F \<longrightarrow> same_field f a b)"

subsection \<open>The constructor of a connection configuration\<close>

text \<open>
  Modelled from the spec: the constructor that finishes a connection configuration,
  which the file does not contain, and the no-op logger, which the file does not declare.
  Section 4.1: the builder starts from the default-initialized record, applies the
  configurators in the order supplied and returns the resulting record; it adds no
  failure of its own, so the only failure is a configurator's panic. Section 3: the
  logger reference is "optional; falls back to a no-op logger". The no-op logger is the
  parameter \<open>noop\<close>.
\<close>

definition NewOptions ::
  "'logger \<Rightarrow> ('codec, 'handler, 'tls, 'v, 'logger) Option list \<Rightarrow>
     panic + ('codec, 'handler, 'tls, 'v, 'logger) Options"
where
  "NewOptions noop opts =
     (case apply_in_order opts Options_zero of
        Inl p \<Rightarrow> Inl p
      | Inr opt \<Rightarrow>
          Inr (if Options.Log opt = None then opt\<lparr>Options.Log := Some noop\<rparr> else opt))"

subsection \<open>The closures of the subscribe constructors\<close>

datatype 'v SubscribeOption_call =
    Call_DisableAutoAck
  | Call_Queue string
  | Call_SubscribeContext "'v ctx option"
  | Call_SubscribeRetryNum int
  | Call_SubscribeStrategy "Strategy_value option"

fun SubscribeOption_of :: "'v SubscribeOption_call \<Rightarrow> 'v SubscribeOption" where
  "SubscribeOption_of Call_DisableAutoAck = DisableAutoAck"
| "SubscribeOption_of (Call_Queue name) = Queue name"
| "SubscribeOption_of (Call_SubscribeContext ctx) = SubscribeContext ctx"
| "SubscribeOption_of (Call_SubscribeRetryNum v) = SubscribeRetryNum v"
| "SubscribeOption_of (Call_SubscribeStrategy v) = SubscribeStrategy v"

text \<open>
  The counts handed to \<open>SubscribeRetryNum\<close>, and the strategies handed to
  \<open>SubscribeStrategy\<close>, in a sequence of calls, in order.
\<close>

fun RetryNum_args :: "'v SubscribeOption_call list \<Rightarrow> int list" where
  "RetryNum_args [] = []"
| "RetryNum_args (Call_SubscribeRetryNum v # cs) = v # RetryNum_args cs"
| "RetryNum_args (c # cs) = RetryNum_args cs"

fun Strategy_args :: "'v SubscribeOption_call list \<Rightarrow> Strategy_value option list" where
  "Strategy_args [] = []"
| "Strategy_args (Call_SubscribeStrategy v # cs) = v # Strategy_args cs"
| "Strategy_args (c # cs) = Strategy_args cs"

text \<open>
  The invariant of the spec's section 3 on a \<open>Strategy\<close> field: the strategy, if set,
  reports a non-empty identity string.
\<close>

fun reports_nonempty :: "Strategy_value option \<Rightarrow> bool" where
  "reports_nonempty None = True"
| "reports_nonempty (Some v) = (Strategy v \<noteq> [])"

section \<open>Auxiliary facts\<close>

lemmas Option_defs = Addresses_def Sasl_def Version_def Secure_def Codec_def ErrorHandler_def
  SetTLSConfig_def Context_def ContextWithValue_def Log_def Otel_def

lemmas SubscribeOption_defs = DisableAutoAck_def Queue_def SubscribeContext_def
  SubscribeRetryNum_def SubscribeStrategy_def

text \<open>Two configurators on disjoint fields, called one after the other.\<close>

lemma swap_disjoint:
  "assigns c1 \<inter> assigns c2 = {} \<Longrightarrow>
   apply_in_order [Option_of c1, Option_of c2] opt = apply_in_order [Option_of c2, Option_of c1] opt"
  by (cases c1; cases c2) (auto simp: Option_defs Let_def split: sum.splits if_splits)

lemma apply_in_order_append:
  "apply_in_order (xs @ ys) opt =
     (case apply_in_order xs opt of Inl p \<Rightarrow> Inl p | Inr opt' \<Rightarrow> apply_in_order ys opt')"
  by (induction xs arbitrary: opt) (auto split: sum.splits)

text \<open>Agreement of records, field by field.\<close>

lemma same_field_refl: "same_field f a a"
  by (cases f) simp_all

lemma same_field_sym: "same_field f a b \<Longrightarrow> same_field f b a"
  by (cases f) simp_all

lemma same_field_trans: "same_field f a b \<Longrightarrow> same_field f b c \<Longrightarrow> same_field f a c"
  by (cases f) simp_all

lemma same_field_all: "(\<And>f. same_field f a b) \<Longrightarrow> a = b"
proof -
  assume h: "\<And>f. same_field f a b"
  show "a = b"
    using h [of Addresses_field] h [of Version_field] h [of Secure_field] h [of Codec_field]
      h [of Username_field] h [of Password_field] h [of Algorithm_field]
      h [of ErrorHandler_field] h [of TLSConfig_field] h [of Context_field]
      h [of Log_field] h [of Otel_field]
    by (cases a; cases b) simp
qed

lemma agree_off_refl: "agree_off F a a"
  by (simp add: agree_off_def same_field_refl)

lemma agree_off_sym: "agree_off F a b \<Longrightarrow> agree_off F b a"
  by (simp add: agree_off_def same_field_sym)

lemma agree_off_mono: "agree_off F a b \<Longrightarrow> F \<subseteq> G \<Longrightarrow> agree_off G a b"
  unfolding agree_off_def by blast

lemma agree_off_trans: "agree_off F a b \<Longrightarrow> agree_off F b c \<Longrightarrow> agree_off F a c"
  unfolding agree_off_def by (blast intro: same_field_trans)

text \<open>
  A closure changes the fields it assigns and no other; whether it returns does not depend
  on the record, and what it leaves in a field depends on that field alone.
\<close>

lemma Option_same_field:
  "Option_of c a = Inr b \<Longrightarrow> f \<notin> assigns c \<Longrightarrow> same_field f a b"
  by (cases c; cases f) (auto simp: Option_defs Let_def split: sum.splits if_splits)

lemma Option_frame: "Option_of c a = Inr b \<Longrightarrow> agree_off (assigns c) a b"
  by (simp add: agree_off_def Option_same_field)

lemma Option_succeeds_anywhere:
  "Option_of c a = Inr b \<Longrightarrow> \<exists>b'. Option_of c a' = Inr b'"
proof (cases c)
  case (Call_ContextWithValue k v)
  assume run: "Option_of c a = Inr b"
  from run Call_ContextWithValue obtain x where k: "k = Comparable x"
    by (cases k) (auto simp: ContextWithValue_def Let_def split: if_splits)
  show ?thesis
    unfolding Call_ContextWithValue k
    by (auto simp: ContextWithValue_def Let_def)
qed (auto simp: Option_defs)

lemma Option_same_field_kept:
  "same_field f a a' \<Longrightarrow> Option_of c a = Inr b \<Longrightarrow> Option_of c a' = Inr b' \<Longrightarrow>
   same_field f b b'"
  by (cases c; cases f) (auto simp: Option_defs Let_def split: sum.splits if_splits)

lemma Option_noninterference:
  assumes "agree_off F a a'" and "Option_of c a = Inr b"
  shows "\<exists>b'. Option_of c a' = Inr b' \<and> agree_off F b b'"
proof -
  from Option_succeeds_anywhere [OF assms(2)] obtain b' where b': "Option_of c a' = Inr b'" ..
  have "agree_off F b b'"
    using assms(1) Option_same_field_kept [OF _ assms(2) b'] by (simp add: agree_off_def)
  with b' show ?thesis by blast
qed

lemma apply_in_order_noninterference:
  "agree_off F a a' \<Longrightarrow> apply_in_order (map Option_of ms) a = Inr b \<Longrightarrow>
   \<exists>b'. apply_in_order (map Option_of ms) a' = Inr b' \<and> agree_off F b b'"
proof (induction ms arbitrary: a a')
  case Nil
  then show ?case by simp
next
  case (Cons m ms)
  from Cons.prems(2) obtain a1 where m: "Option_of m a = Inr a1"
    and rest: "apply_in_order (map Option_of ms) a1 = Inr b"
    by (auto split: sum.splits)
  from Option_noninterference [OF Cons.prems(1) m] obtain a1' where
    m': "Option_of m a' = Inr a1'" and ag: "agree_off F a1 a1'" by blast
  from Cons.IH [OF ag rest] m' show ?case by simp
qed

text \<open>
  A closure other than \<open>ContextWithValue\<close> returns, and leaves its arguments in the
  fields it assigns.
\<close>

lemma stores_total: "\<not> extends_context c \<Longrightarrow> \<exists>b. Option_of c a = Inr b"
  by (cases c) (auto simp: Option_defs)

lemma stores_sets:
  "\<not> extends_context c \<Longrightarrow> f \<in> assigns c \<Longrightarrow> Option_of c a = Inr b \<Longrightarrow>
   Option_of c a' = Inr b' \<Longrightarrow> same_field f b b'"
  by (cases c; cases f) (auto simp: Option_defs split: if_splits)

lemma stores_agree:
  assumes ow: "\<not> extends_context c" and sub: "F \<subseteq> assigns c" and ag: "agree_off F a a'"
  shows "Option_of c a = Option_of c a'"
proof -
  from stores_total [OF ow] obtain b b' where
    b: "Option_of c a = Inr b" and b': "Option_of c a' = Inr b'" by blast
  have "same_field f b b'" for f
  proof (cases "f \<in> assigns c")
    case True
    then show ?thesis by (rule stores_sets [OF ow _ b b'])
  next
    case False
    with sub ag have "same_field f a a'" by (auto simp: agree_off_def)
    then show ?thesis by (rule Option_same_field_kept [OF _ b b'])
  qed
  then have "b = b'" by (rule same_field_all)
  with b b' show ?thesis by simp
qed

text \<open>Exchanging two neighbours, and dropping an earlier call whose fields are assigned again.\<close>

lemma swap_anywhere:
  assumes "assigns c1 \<inter> assigns c2 = {}"
  shows "apply_in_order (map Option_of (cs @ c1 # c2 # ds)) opt =
         apply_in_order (map Option_of (cs @ c2 # c1 # ds)) opt"
proof -
  have two: "apply_in_order (Option_of c1 # Option_of c2 # rest) s =
             apply_in_order (Option_of c2 # Option_of c1 # rest) s" for rest s
    using swap_disjoint [OF assms, of s] by (auto split: sum.splits)
  show ?thesis
    by (simp add: apply_in_order_append two del: apply_in_order.simps split: sum.splits)
qed

lemma earlier_write_lost:
  assumes ow: "\<not> extends_context c2" and sub: "assigns c1 \<subseteq> assigns c2"
    and run: "apply_in_order (map Option_of (cs @ c1 # ms @ c2 # ds)) opt = Inr r"
  shows "apply_in_order (map Option_of (cs @ ms @ c2 # ds)) opt = Inr r"
proof -
  from run obtain a a1 b1 where cs: "apply_in_order (map Option_of cs) opt = Inr a"
    and c1: "Option_of c1 a = Inr a1"
    and ms: "apply_in_order (map Option_of ms) a1 = Inr b1"
    and tl: "apply_in_order (map Option_of (c2 # ds)) b1 = Inr r"
    by (auto simp: apply_in_order_append split: sum.splits)
  have "agree_off (assigns c1) a1 a"
    by (rule agree_off_sym [OF Option_frame [OF c1]])
  from apply_in_order_noninterference [OF this ms] obtain b where
    ms': "apply_in_order (map Option_of ms) a = Inr b" and ag: "agree_off (assigns c1) b1 b"
    by blast
  have "Option_of c2 b1 = Option_of c2 b"
    by (rule stores_agree [OF ow sub ag])
  with tl have "apply_in_order (map Option_of (c2 # ds)) b = Inr r" by simp
  with cs ms' show ?thesis by (simp add: apply_in_order_append)
qed

text \<open>The logger, the retry count and the strategy along a run.\<close>

lemma Log_kept:
  "\<forall>c\<in>set cs. \<not> supplies_logger c \<Longrightarrow> apply_in_order (map Option_of cs) opt = Inr r \<Longrightarrow>
   Options.Log r = Options.Log opt"
proof (induction cs arbitrary: opt)
  case Nil
  then show ?case by simp
next
  case (Cons c cs)
  from Cons.prems(2) obtain opt1 where c: "Option_of c opt = Inr opt1"
    and rest: "apply_in_order (map Option_of cs) opt1 = Inr r"
    by (auto split: sum.splits)
  from Cons.prems(1) have "\<not> supplies_logger c" by simp
  with c have "Options.Log opt1 = Options.Log opt"
    by (cases c) (auto simp: Option_defs Let_def split: sum.splits if_splits)
  moreover from Cons.prems(1) have "\<forall>c\<in>set cs. \<not> supplies_logger c" by simp
  from Cons.IH [OF this rest] have "Options.Log r = Options.Log opt1" .
  ultimately show ?case by simp
qed

lemma fold_SubscribeOption_RetryNum:
  "SubscribeOptions.RetryNum (fold (\<lambda>configure opt. configure opt) (map SubscribeOption_of cs) s) =
   last (SubscribeOptions.RetryNum s # RetryNum_args cs)"
proof (induction cs arbitrary: s)
  case Nil
  then show ?case by simp
next
  case (Cons c cs)
  show ?case by (cases c) (simp_all add: Cons.IH SubscribeOption_defs)
qed

lemma fold_SubscribeOption_Strategy:
  "SubscribeOptions.Strategy (fold (\<lambda>configure opt. configure opt) (map SubscribeOption_of cs) s) =
   last (SubscribeOptions.Strategy s # Strategy_args cs)"
proof (induction cs arbitrary: s)
  case Nil
  then show ?case by simp
next
  case (Cons c cs)
  show ?case by (cases c) (simp_all add: Cons.IH SubscribeOption_defs)
qed

text \<open>A run computes the last-write-wins result, call by call.\<close>

lemma first_panic_snoc:
  "first_panic (cs @ [c]) = (case first_panic cs of Some p \<Rightarrow> Some p | None \<Rightarrow> panic_of c)"
  by (induction cs) (auto split: option.splits)

lemma after_last_Context_snoc:
  "after_last_Context (cs @ [c]) = (if sets_Context c then [] else after_last_Context cs @ [c])"
  by (simp add: after_last_Context_def)

lemma last_Cons_snoc: "last (x # xs @ [y]) = y"
  by simp

lemma Context_written_Nil: "Context_written [] held = held"
  by (simp add: Context_written_def after_last_Context_def)

lemma Context_written_snoc_Context: "Context_written (cs @ [Call_Context x]) held = x"
  by (simp add: Context_written_def after_last_Context_snoc last_Cons_snoc del: last.simps)

lemma Context_written_snoc_ContextWithValue:
  "Context_written (cs @ [Call_ContextWithValue (Comparable k) v]) held =
     Some (valueCtx (case Context_written cs held of None \<Rightarrow> Background | Some c \<Rightarrow> c) k v)"
proof -
  define base where "base = last (held # [c. Call_Context c \<leftarrow> cs])"
  define added where
    "added = [(k, v). Call_ContextWithValue (Comparable k) v \<leftarrow> after_last_Context cs]"
  have old: "Context_written cs held =
      (if added = [] then base
       else Some (foldl (\<lambda>parent (k, v). valueCtx parent k v)
                    (case base of None \<Rightarrow> Background | Some c \<Rightarrow> c) added))"
    by (simp only: Context_written_def base_def added_def Let_def)
  have new: "Context_written (cs @ [Call_ContextWithValue (Comparable k) v]) held =
      Some (foldl (\<lambda>parent (k, v). valueCtx parent k v)
              (case base of None \<Rightarrow> Background | Some c \<Rightarrow> c) (added @ [(k, v)]))"
    by (simp add: Context_written_def after_last_Context_snoc base_def added_def
        del: last.simps)
  show ?thesis
    unfolding old new by (cases "added = []") simp_all
qed

lemma ContextWithValue_cases:
  "ContextWithValue NilValue v opt = Inl NilKey"
  "ContextWithValue (NotComparable k) v opt = Inl KeyNotComparable"
  "ContextWithValue (Comparable k) v opt =
     Inr (opt\<lparr>Options.Context :=
            Some (valueCtx (case Options.Context opt of None \<Rightarrow> Background | Some c \<Rightarrow> c) k v)\<rparr>)"
  by (cases "Options.Context opt"; simp add: ContextWithValue_def)+

lemma Context_written_snoc_other:
  "\<not> sets_Context c \<Longrightarrow> \<not> extends_context c \<Longrightarrow>
   Context_written (cs @ [c]) held = Context_written cs held"
  by (cases c) (simp_all add: Context_written_def after_last_Context_snoc del: last.simps)

lemma last_write_wins_Nil: "last_write_wins [] opt = opt"
  by (simp add: last_write_wins_def Context_written_Nil)

lemma last_write_wins_snoc:
  "Option_of c (last_write_wins cs opt) =
     (case panic_of c of Some p \<Rightarrow> Inl p | None \<Rightarrow> Inr (last_write_wins (cs @ [c]) opt))"
proof (cases c)
  case (Call_ContextWithValue k v)
  show ?thesis
    unfolding Call_ContextWithValue
    by (cases k)
      (simp_all add: last_write_wins_def ContextWithValue_cases
        Context_written_snoc_ContextWithValue del: last.simps)
next
  case (Call_Log log)
  show ?thesis
    unfolding Call_Log
    by (cases log)
      (simp_all add: last_write_wins_def Log_def Context_written_snoc_other last_Cons_snoc
        del: last.simps)
next
  case (Call_Context x)
  show ?thesis
    unfolding Call_Context
    by (simp add: last_write_wins_def Context_def Context_written_snoc_Context del: last.simps)
qed (simp_all add: last_write_wins_def Option_defs Context_written_snoc_other last_Cons_snoc
    del: last.simps)

lemma apply_in_order_last_write_wins:
  "apply_in_order (map Option_of cs) opt =
     (case first_panic cs of Some p \<Rightarrow> Inl p | None \<Rightarrow> Inr (last_write_wins cs opt))"
proof (induction cs rule: rev_induct)
  case Nil
  show ?case by (simp add: last_write_wins_Nil)
next
  case (snoc c cs)
  show ?case
    by (simp add: apply_in_order_append snoc.IH first_panic_snoc last_write_wins_snoc
        split: option.splits)
qed

section \<open>The claims\<close>

subsection \<open>C1: a sequence of connection configurators\<close>

text \<open>
  C1, amended. For every sequence of connection configurators applied in order to an
  \<open>Options\<close> record (the default-initialized one included):
  \<^item> the run panics exactly when a \<open>ContextWithValue\<close> of the sequence was given a key
    that \<open>context.WithValue\<close> refuses, with the panic of the first such call; otherwise
    it returns the last-write-wins result: every field but \<open>Context\<close> holds the argument
    of the last configurator that assigned it (\<open>Log\<close> with a nil logger assigns
    nothing), or what the record held when none did, and \<open>Context\<close> holds the argument
    of the last \<open>Context(c)\<close>, extended by the bindings of the \<open>ContextWithValue\<close> calls
    after it;
  \<^item> two neighbours that assign disjoint fields may be exchanged, and the run has the same
    outcome;
  \<^item> an earlier configurator all of whose fields a later one other than
    \<open>ContextWithValue\<close> assigns has no influence on the record a run returns.

  The claim as stated lets the later of any two configurators on the same field determine
  the final value. That fails for \<open>ContextWithValue\<close>, which extends the context left by
  the earlier configurators.
\<close>

theorem configurators_last_write_wins:
  "apply_in_order (map Option_of cs) opt =
     (case first_panic cs of Some p \<Rightarrow> Inl p | None \<Rightarrow> Inr (last_write_wins cs opt)) \<and>
   (assigns a \<inter> assigns b = {} \<longrightarrow>
      apply_in_order (map Option_of (cs @ a # b # ds)) opt =
      apply_in_order (map Option_of (cs @ b # a # ds)) opt) \<and>
   (\<not> extends_context c \<and> assigns e \<subseteq> assigns c \<and>
    apply_in_order (map Option_of (cs @ e # ms @ c # ds)) opt = Inr r \<longrightarrow>
      apply_in_order (map Option_of (cs @ ms @ c # ds)) opt = Inr r)"
  using apply_in_order_last_write_wins [of cs opt] swap_anywhere [of a b cs ds opt]
    earlier_write_lost [of c e cs ms ds opt r]
  by blast

text \<open>
  An instance on the zero record. The sequence \<open>Sasl("u", "p", "plain")\<close>, \<open>Log(1)\<close>,
  \<open>Log(nil)\<close>, \<open>ContextWithValue(5, 6)\<close> returns the record with the three credentials,
  logger 1 and the context that binds 5 to 6. After it, \<open>Secure(true)\<close> and
  \<open>Version(1.0.0.0)\<close> are exchanged in front of \<open>Codec(2)\<close>, and \<open>Otel(true)\<close> is lost to
  the \<open>Otel(false)\<close> that follows \<open>Codec(nil)\<close>.
\<close>

theorem configurators_last_write_wins_witness:
  "first_panic
     [Call_Sasl ''u'' ''p'' ''plain'', Call_Log (Some 1), Call_Log None,
      Call_ContextWithValue (Comparable 5) (Comparable 6)
        :: (nat, nat, nat, nat, nat) Option_call] = None \<and>
   apply_in_order (map Option_of
       [Call_Sasl ''u'' ''p'' ''plain'', Call_Log (Some 1), Call_Log None,
        Call_ContextWithValue (Comparable 5) (Comparable 6)])
     (Options_zero :: (nat, nat, nat, nat, nat) Options) =
     Inr (Options_zero\<lparr>Options.Username := ''u'', Options.Password := ''p'',
            Options.Algorithm := ''plain'',
            Options.Context := Some (valueCtx backgroundCtx 5 (Comparable 6)),
            Options.Log := Some 1\<rparr>) \<and>
   last_write_wins
       [Call_Sasl ''u'' ''p'' ''plain'', Call_Log (Some 1), Call_Log None,
        Call_ContextWithValue (Comparable 5) (Comparable 6)]
     (Options_zero :: (nat, nat, nat, nat, nat) Options) =
     Options_zero\<lparr>Options.Username := ''u'', Options.Password := ''p'',
       Options.Algorithm := ''plain'',
       Options.Context := Some (valueCtx backgroundCtx 5 (Comparable 6)),
       Options.Log := Some 1\<rparr> \<and>
   assigns (Call_Secure True :: (nat, nat, nat, nat, nat) Option_call) \<inter>
     assigns (Call_Version (KafkaVersion 1 0 0 0) :: (nat, nat, nat, nat, nat) Option_call) =
     {} \<and>
   apply_in_order (map Option_of
       ([Call_Sasl ''u'' ''p'' ''plain'', Call_Log (Some 1), Call_Log None,
         Call_ContextWithValue (Comparable 5) (Comparable 6)] @
        Call_Secure True # Call_Version (KafkaVersion 1 0 0 0) # [Call_Codec (Some 2)]))
     (Options_zero :: (nat, nat, nat, nat, nat) Options) =
   apply_in_order (map Option_of
       ([Call_Sasl ''u'' ''p'' ''plain'', Call_Log (Some 1), Call_Log None,
         Call_ContextWithValue (Comparable 5) (Comparable 6)] @
        Call_Version (KafkaVersion 1 0 0 0) # Call_Secure True # [Call_Codec (Some 2)]))
     Options_zero \<and>
   \<not> extends_context (Call_Otel False :: (nat, nat, nat, nat, nat) Option_call) \<and>
   assigns (Call_Otel True :: (nat, nat, nat, nat, nat) Option_call) \<subseteq>
     assigns (Call_Otel False :: (nat, nat, nat, nat, nat) Option_call) \<and>
   apply_in_order (map Option_of
       ([Call_Sasl ''u'' ''p'' ''plain'', Call_Log (Some 1), Call_Log None,
         Call_ContextWithValue (Comparable 5) (Comparable 6)] @
        Call_Otel True # [Call_Codec None] @ Call_Otel False # [Call_Codec (Some 2)]))
     (Options_zero :: (nat, nat, nat, nat, nat) Options) =
     Inr (Options_zero\<lparr>Options.Codec := Some 2, Options.Username := ''u'',
            Options.Password := ''p'', Options.Algorithm := ''plain'',
            Options.Context := Some (valueCtx backgroundCtx 5 (Comparable 6)),
            Options.Log := Some 1\<rparr>) \<and>
   apply_in_order (map Option_of
       ([Call_Sasl ''u'' ''p'' ''plain'', Call_Log (Some 1), Call_Log None,
         Call_ContextWithValue (Comparable 5) (Comparable 6)] @
        [Call_Codec None] @ Call_Otel False # [Call_Codec (Some 2)]))
     (Options_zero :: (nat, nat, nat, nat, nat) Options) =
     Inr (Options_zero\<lparr>Options.Codec := Some 2, Options.Username := ''u'',
            Options.Password := ''p'', Options.Algorithm := ''plain'',
            Options.Context := Some (valueCtx backgroundCtx 5 (Comparable 6)),
            Options.Log := Some 1\<rparr>)"
  using configurators_last_write_wins
    [of "[Call_Sasl ''u'' ''p'' ''plain'', Call_Log (Some 1), Call_Log None,
          Call_ContextWithValue (Comparable 5) (Comparable 6)]"
      "Options_zero :: (nat, nat, nat, nat, nat) Options"
      "Call_Secure True" "Call_Version (KafkaVersion 1 0 0 0)" "[Call_Codec (Some 2)]"
      "Call_Otel False" "Call_Otel True" "[Call_Codec None]"
      "Options_zero\<lparr>Options.Codec := Some 2, Options.Username := ''u'',
         Options.Password := ''p'', Options.Algorithm := ''plain'',
         Options.Context := Some (valueCtx backgroundCtx 5 (Comparable 6)),
         Options.Log := Some 1\<rparr>"]
  by (simp add: Option_defs Options_zero_def Background_def last_write_wins_def
      Context_written_def after_last_Context_def)

text \<open>
  Where the stated claim fails: \<open>ContextWithValue(1, 10)\<close> and then
  \<open>ContextWithValue(2, 20)\<close>, both assigning \<open>Context\<close>, called on the zero record. The
  later one does not determine the final value: the context still answers 10 for key 1,
  while the context the later call alone leaves answers nil for it.
\<close>

theorem ContextWithValue_keeps_earlier_binding:
  "ContextWithValue (Comparable 1) (Comparable 10)
     (Options_zero :: (nat, nat, nat, nat, nat) Options) =
     Inr (Options_zero\<lparr>Options.Context :=
            Some (valueCtx backgroundCtx 1 (Comparable 10))\<rparr>) \<and>
   ContextWithValue (Comparable 2) (Comparable 20)
     (Options_zero\<lparr>Options.Context := Some (valueCtx backgroundCtx 1 (Comparable 10))\<rparr>
        :: (nat, nat, nat, nat, nat) Options) =
     Inr (Options_zero\<lparr>Options.Context :=
            Some (valueCtx (valueCtx backgroundCtx 1 (Comparable 10)) 2 (Comparable 20))\<rparr>) \<and>
   Value plain_eq (valueCtx (valueCtx backgroundCtx 1 (Comparable 10)) 2 (Comparable 20))
     (Comparable (1::nat)) = Inr (Comparable 10) \<and>
   ContextWithValue (Comparable 2) (Comparable 20)
     (Options_zero :: (nat, nat, nat, nat, nat) Options) =
     Inr (Options_zero\<lparr>Options.Context :=
            Some (valueCtx backgroundCtx 2 (Comparable 20))\<rparr>) \<and>
   Value plain_eq (valueCtx backgroundCtx 2 (Comparable 20)) (Comparable (1::nat)) =
     Inr NilValue"
  by (simp add: ContextWithValue_def Background_def Options_zero_def plain_eq_def)

subsection \<open>C2: the defaults of NewSubscribeOptions\<close>

text \<open>
  C2. \<open>NewSubscribeOptions\<close> called with no configurator returns a record with
  \<open>AutoAck = true\<close>, \<open>Queue = ""\<close>, \<open>RetryNum = 0\<close> and \<open>Strategy = nil\<close>.
\<close>

theorem NewSubscribeOptions_defaults:
  "SubscribeOptions.AutoAck (NewSubscribeOptions []) = True \<and>
   SubscribeOptions.Queue (NewSubscribeOptions []) = '''' \<and>
   SubscribeOptions.RetryNum (NewSubscribeOptions []) = 0 \<and>
   SubscribeOptions.Strategy (NewSubscribeOptions []) = None"
  by (simp add: NewSubscribeOptions_def)

subsection \<open>C3: the built-in strategies\<close>

text \<open>
  C3. The singletons \<open>StrategyRetry\<close>, \<open>StrategyDoOnce\<close> and \<open>StrategySendBack\<close> report,
  through \<open>Strategy()\<close>, exactly "retry", "do_once" and "send_back", and the three strings
  are pairwise distinct.
\<close>

theorem builtin_strategy_identities:
  "Strategy StrategyRetry = ''retry'' \<and>
   Strategy StrategyDoOnce = ''do_once'' \<and>
   Strategy StrategySendBack = ''send_back'' \<and>
   distinct [Strategy StrategyRetry, Strategy StrategyDoOnce, Strategy StrategySendBack]"
  by (simp add: StrategyRetry_def StrategyDoOnce_def StrategySendBack_def
      StrategyKindRetry_def StrategyKindDoOnce_def StrategyKindSendBack_def)

subsection \<open>C4: ContextWithValue on a record without context\<close>

text \<open>
  C4, amended. For every key \<open>k\<close> that is not nil, whose type is comparable and that is
  equal to itself (\<open>k == k\<close> is true), and every value \<open>v\<close>, \<open>ContextWithValue(k, v)\<close>
  applied to a record whose \<open>Context\<close> is nil sets the field to the empty base context
  extended by the binding, and that context answers \<open>v\<close> for \<open>k\<close>. With a nil key, or a
  key whose type is not comparable, \<open>context.WithValue\<close> panics and the configurator
  returns no record. For a key that differs from itself (a NaN) the context answers
  nil, and for a key whose comparison panics the query panics.
\<close>

theorem ContextWithValue_on_nil_context:
  "Options.Context opt = None \<Longrightarrow>
   ContextWithValue (Comparable k) v opt =
     Inr (opt\<lparr>Options.Context := Some (valueCtx Background k v)\<rparr>) \<and>
   Value eq (valueCtx Background k v) (Comparable k) =
     (case eq k k of
        None \<Rightarrow> Inl ComparingUncomparable
      | Some True \<Rightarrow> Inr v
      | Some False \<Rightarrow> Inr NilValue) \<and>
   ContextWithValue NilValue v opt = Inl NilKey \<and>
   ContextWithValue (NotComparable k) v opt = Inl KeyNotComparable"
  by (simp add: ContextWithValue_def Background_def split: option.splits bool.splits)

text \<open>An instance: the integer key 7, which is equal to itself, and value 8 on the zero record.\<close>

theorem ContextWithValue_on_nil_context_witness:
  "Options.Context (Options_zero :: (nat, nat, nat, nat, nat) Options) = None \<and>
   plain_eq (7::nat) 7 = Some True \<and>
   ContextWithValue (Comparable 7) (Comparable 8)
     (Options_zero :: (nat, nat, nat, nat, nat) Options) =
     Inr (Options_zero\<lparr>Options.Context := Some (valueCtx Background 7 (Comparable 8))\<rparr>) \<and>
   Value plain_eq (valueCtx Background 7 (Comparable 8)) (Comparable (7::nat)) =
     Inr (Comparable 8)"
  using ContextWithValue_on_nil_context
    [of "Options_zero :: (nat, nat, nat, nat, nat) Options" 7 "Comparable 8" plain_eq]
  by (simp add: Options_zero_def plain_eq_def)

text \<open>
  Where the stated claim fails: the nil key. On the zero record, whose \<open>Context\<close> is
  nil, \<open>ContextWithValue(nil, 8)\<close> panics with "nil key"; there is no resulting record to
  query.
\<close>

theorem ContextWithValue_nil_key_panics:
  "Options.Context (Options_zero :: (nat, nat, nat, nat, nat) Options) = None \<and>
   ContextWithValue NilValue (Comparable 8)
     (Options_zero :: (nat, nat, nat, nat, nat) Options) = Inl NilKey"
  by (simp add: ContextWithValue_def Options_zero_def)

subsection \<open>C5: Log with a nil logger\<close>

text \<open>
  C5. For every \<open>Options\<close> record, \<open>Log\<close> with a nil logger leaves the record unchanged;
  in particular a \<open>Log\<close> field set before to a non-nil logger keeps that logger.
\<close>

theorem Log_nil_is_noop:
  "Log None opt = Inr opt \<and>
   (\<exists>opt'. Log None (opt\<lparr>Options.Log := Some l\<rparr>) = Inr opt' \<and> Options.Log opt' = Some l)"
  by (simp add: Log_def)

subsection \<open>C6: TLS material and the secure flag\<close>

text \<open>
  C6. For every \<open>Options\<close> record, \<open>SetTLSConfig\<close> changes the \<open>TLSConfig\<close> field only and
  leaves the \<open>Secure\<close> flag as it was, and \<open>Secure\<close> changes the \<open>Secure\<close> flag only and
  leaves \<open>TLSConfig\<close> as it was: putting the old value of the one changed field back
  gives the record before the call.
\<close>

theorem TLSConfig_and_Secure_independent:
  "(\<exists>opt'. SetTLSConfig t opt = Inr opt' \<and> Options.TLSConfig opt' = t \<and>
      Options.Secure opt' = Options.Secure opt \<and>
      opt'\<lparr>Options.TLSConfig := Options.TLSConfig opt\<rparr> = opt) \<and>
   (\<exists>opt'. Secure b opt = Inr opt' \<and> Options.Secure opt' = b \<and>
      Options.TLSConfig opt' = Options.TLSConfig opt \<and>
      opt'\<lparr>Options.Secure := Options.Secure opt\<rparr> = opt)"
  by (simp add: SetTLSConfig_def Secure_def)

subsection \<open>C7: the retry count\<close>

text \<open>
  C7, amended. For every sequence of subscribe configurators, the \<open>RetryNum\<close> of the
  record \<open>NewSubscribeOptions\<close> returns is the count handed to the last
  \<open>SubscribeRetryNum\<close> of the sequence, and 0 when there is none; so it is at least 0
  whenever every count handed over is. Nothing checks the count: a negative one is
  stored as it is.
\<close>

theorem RetryNum_is_last_supplied:
  "SubscribeOptions.RetryNum (NewSubscribeOptions (map SubscribeOption_of cs)) =
     last (0 # RetryNum_args cs) \<and>
   ((\<forall>v\<in>set (RetryNum_args cs). 0 \<le> v) \<longrightarrow>
      0 \<le> SubscribeOptions.RetryNum (NewSubscribeOptions (map SubscribeOption_of cs)))"
proof -
  have eq: "SubscribeOptions.RetryNum (NewSubscribeOptions (map SubscribeOption_of cs)) =
     last (0 # RetryNum_args cs)"
    by (simp add: NewSubscribeOptions_def fold_SubscribeOption_RetryNum)
  have "last (0 # RetryNum_args cs) \<in> set (0 # RetryNum_args cs)"
    by (rule last_in_set) simp
  with eq show ?thesis by auto
qed

text \<open>An instance: \<open>Queue("orders")\<close>, \<open>SubscribeRetryNum(5)\<close>, \<open>SubscribeRetryNum(3)\<close>.\<close>

theorem RetryNum_is_last_supplied_witness:
  "RetryNum_args [Call_Queue ''orders'', Call_SubscribeRetryNum 5,
      Call_SubscribeRetryNum 3 :: nat SubscribeOption_call] = [5, 3] \<and>
   (0::int) \<le> 5 \<and> (0::int) \<le> 3 \<and>
   SubscribeOptions.RetryNum (NewSubscribeOptions (map SubscribeOption_of
      [Call_Queue ''orders'', Call_SubscribeRetryNum 5,
       Call_SubscribeRetryNum 3 :: nat SubscribeOption_call])) = 3 \<and>
   (0::int) \<le> SubscribeOptions.RetryNum (NewSubscribeOptions (map SubscribeOption_of
      [Call_Queue ''orders'', Call_SubscribeRetryNum 5,
       Call_SubscribeRetryNum 3 :: nat SubscribeOption_call]))"
  using RetryNum_is_last_supplied [of "[Call_Queue ''orders'', Call_SubscribeRetryNum 5,
       Call_SubscribeRetryNum 3 :: nat SubscribeOption_call]"]
  by simp

text \<open>
  Where the stated claim fails: \<open>NewSubscribeOptions(SubscribeRetryNum(-1))\<close> returns a
  record whose \<open>RetryNum\<close> is -1.
\<close>

theorem SubscribeRetryNum_negative:
  "SubscribeOptions.RetryNum
     (NewSubscribeOptions [SubscribeRetryNum (- 1) :: nat SubscribeOption]) = - 1 \<and>
   \<not> 0 \<le> SubscribeOptions.RetryNum
     (NewSubscribeOptions [SubscribeRetryNum (- 1) :: nat SubscribeOption])"
  by (simp add: NewSubscribeOptions_def SubscribeRetryNum_def)

subsection \<open>C8: the logger when none is supplied\<close>

text \<open>
  C8, against the constructor modelled from the spec. When no logger is supplied (no
  \<open>Log\<close> with a non-nil logger is among the configurators), the \<open>Log\<close> field of the
  finished configuration is the no-op logger and not nil; a finished configuration
  exists unless a \<open>ContextWithValue\<close> of the sequence panics.
\<close>

theorem NewOptions_logger_fallback:
  assumes "\<forall>c\<in>set cs. \<not> supplies_logger c"
  shows "(NewOptions noop (map Option_of cs) = Inr r \<longrightarrow> Options.Log r = Some noop) \<and>
         (first_panic cs = None \<longrightarrow>
            (\<exists>q. NewOptions noop (map Option_of cs) = Inr q \<and> Options.Log q = Some noop))"
proof -
  have nil: "Options.Log opt = None"
    if "apply_in_order (map Option_of cs) Options_zero = Inr opt"
    for opt :: "('a, 'b, 'c, 'd, 'e) Options"
    using Log_kept [OF assms that] by (simp add: Options_zero_def)
  have fallback: "Options.Log q = Some noop" if "NewOptions noop (map Option_of cs) = Inr q"
    for q :: "('a, 'b, 'c, 'd, 'e) Options"
    using that nil by (auto simp: NewOptions_def split: sum.splits)
  have "\<exists>q. NewOptions noop (map Option_of cs) = Inr q" if "first_panic cs = None"
    using that
      apply_in_order_last_write_wins [of cs "Options_zero :: ('a, 'b, 'c, 'd, 'e) Options"]
    by (simp add: NewOptions_def)
  with fallback show ?thesis by blast
qed

text \<open>An instance: \<open>Secure(true)\<close> and \<open>Log(nil)\<close>, with 0 standing for the no-op logger.\<close>

theorem NewOptions_logger_fallback_witness:
  "\<not> supplies_logger (Call_Secure True :: (nat, nat, nat, nat, nat) Option_call) \<and>
   \<not> supplies_logger (Call_Log None :: (nat, nat, nat, nat, nat) Option_call) \<and>
   first_panic [Call_Secure True, Call_Log None :: (nat, nat, nat, nat, nat) Option_call] =
     None \<and>
   NewOptions 0 (map Option_of
       [Call_Secure True, Call_Log None :: (nat, nat, nat, nat, nat) Option_call]) =
     Inr (Options_zero\<lparr>Options.Secure := True, Options.Log := Some 0\<rparr>) \<and>
   Options.Log (Options_zero\<lparr>Options.Secure := True, Options.Log := Some 0\<rparr>
      :: (nat, nat, nat, nat, nat) Options) = Some 0"
  using NewOptions_logger_fallback [of "[Call_Secure True, Call_Log None]" 0
      "Options_zero\<lparr>Options.Secure := True, Options.Log := Some 0\<rparr>
         :: (nat, nat, nat, nat, nat) Options"]
  by (simp add: Option_defs NewOptions_def Options_zero_def)

subsection \<open>C9: the identity string of the strategy\<close>

text \<open>
  C9, amended. For every sequence of subscribe configurators, the \<open>Strategy\<close> field of the
  record \<open>NewSubscribeOptions\<close> returns is the value handed to the last
  \<open>SubscribeStrategy\<close> of the sequence, and nil when there is none; so, if it is not nil,
  it reports a non-empty string whenever every strategy handed over does, as the three
  built-in ones do. Nothing checks the strategy: one that reports the empty string is
  stored as it is.
\<close>

theorem Strategy_is_last_supplied:
  "SubscribeOptions.Strategy (NewSubscribeOptions (map SubscribeOption_of cs)) =
     last (None # Strategy_args cs) \<and>
   ((\<forall>s\<in>set (Strategy_args cs). reports_nonempty s) \<longrightarrow>
      reports_nonempty
        (SubscribeOptions.Strategy (NewSubscribeOptions (map SubscribeOption_of cs)))) \<and>
   reports_nonempty (Some StrategyRetry) \<and> reports_nonempty (Some StrategyDoOnce) \<and>
   reports_nonempty (Some StrategySendBack)"
proof -
  have eq: "SubscribeOptions.Strategy (NewSubscribeOptions (map SubscribeOption_of cs)) =
     last (None # Strategy_args cs)"
    by (simp add: NewSubscribeOptions_def fold_SubscribeOption_Strategy)
  have "last (None # Strategy_args cs) \<in> set (None # Strategy_args cs)"
    by (rule last_in_set) simp
  with eq have "(\<forall>s\<in>set (Strategy_args cs). reports_nonempty s) \<longrightarrow>
      reports_nonempty
        (SubscribeOptions.Strategy (NewSubscribeOptions (map SubscribeOption_of cs)))"
    by auto
  with eq show ?thesis
    by (simp add: StrategyRetry_def StrategyDoOnce_def StrategySendBack_def
        StrategyKindRetry_def StrategyKindDoOnce_def StrategyKindSendBack_def)
qed

text \<open>
  An instance: \<open>SubscribeStrategy(StrategyDoOnce)\<close>, \<open>SubscribeRetryNum(3)\<close>,
  \<open>SubscribeStrategy(StrategyRetry)\<close>.
\<close>

theorem Strategy_is_last_supplied_witness:
  "Strategy_args [Call_SubscribeStrategy (Some StrategyDoOnce), Call_SubscribeRetryNum 3,
      Call_SubscribeStrategy (Some StrategyRetry) :: nat SubscribeOption_call] =
     [Some StrategyDoOnce, Some StrategyRetry] \<and>
   reports_nonempty (Some StrategyDoOnce) \<and> reports_nonempty (Some StrategyRetry) \<and>
   SubscribeOptions.Strategy (NewSubscribeOptions (map SubscribeOption_of
      [Call_SubscribeStrategy (Some StrategyDoOnce), Call_SubscribeRetryNum 3,
       Call_SubscribeStrategy (Some StrategyRetry) :: nat SubscribeOption_call])) =
     Some StrategyRetry \<and>
   reports_nonempty (SubscribeOptions.Strategy (NewSubscribeOptions (map SubscribeOption_of
      [Call_SubscribeStrategy (Some StrategyDoOnce), Call_SubscribeRetryNum 3,
       Call_SubscribeStrategy (Some StrategyRetry) :: nat SubscribeOption_call])))"
  using Strategy_is_last_supplied [of "[Call_SubscribeStrategy (Some StrategyDoOnce),
       Call_SubscribeRetryNum 3,
       Call_SubscribeStrategy (Some StrategyRetry) :: nat SubscribeOption_call]"]
  by (simp add: StrategyRetry_def StrategyDoOnce_def StrategyKindRetry_def
      StrategyKindDoOnce_def)

text \<open>
  Where the stated claim fails: \<open>NewSubscribeOptions(SubscribeStrategy(strategyImpl("")))\<close>
  returns a record whose \<open>Strategy\<close> is not nil and reports the empty string.
\<close>

theorem SubscribeStrategy_empty_identity:
  "SubscribeOptions.Strategy
     (NewSubscribeOptions [SubscribeStrategy (Some (strategyImpl [])) :: nat SubscribeOption]) =
     Some (strategyImpl []) \<and>
   Strategy (strategyImpl []) = [] \<and>
   \<not> reports_nonempty (SubscribeOptions.Strategy
     (NewSubscribeOptions [SubscribeStrategy (Some (strategyImpl [])) :: nat SubscribeOption]))"
  by (simp add: NewSubscribeOptions_def SubscribeStrategy_def)

subsection \<open>C10: nil arguments without a guard\<close>

text \<open>
  C10. \<open>Context\<close>, \<open>SetTLSConfig\<close>, \<open>ErrorHandler\<close> and \<open>Codec\<close> have no nil guard: for
  every \<open>Options\<close> record, whatever its field held, the call with a nil argument leaves the
  field (\<open>Context\<close>, \<open>TLSConfig\<close>, \<open>ErrorHandler\<close>, \<open>Codec\<close>) nil. \<open>Log\<close> differs: with a
  nil argument it keeps the logger the record held.
\<close>

theorem nil_argument_clears_field:
  "(\<exists>opt'. Context None opt = Inr opt' \<and> Options.Context opt' = None) \<and>
   (\<exists>opt'. SetTLSConfig None opt = Inr opt' \<and> Options.TLSConfig opt' = None) \<and>
   (\<exists>opt'. ErrorHandler None opt = Inr opt' \<and> Options.ErrorHandler opt' = None) \<and>
   (\<exists>opt'. Codec None opt = Inr opt' \<and> Options.Codec opt' = None) \<and>
   (\<exists>opt'. Context None (opt\<lparr>Options.Context := Some c\<rparr>) = Inr opt' \<and>
      Options.Context opt' = None) \<and>
   (\<exists>opt'. Log None (opt\<lparr>Options.Log := Some l\<rparr>) = Inr opt' \<and> Options.Log opt' = Some l)"
  by (simp add: Context_def SetTLSConfig_def ErrorHandler_def Codec_def Log_def)

end
